theory Spec2Isabelle
  imports Complex_Main "HOL-Library.Char_ord" "HOL-Library.List_Lexorder"
begin

section \<open>Python strings\<close>

text \<open>
  The synthesizer reads every file with \<^verbatim>\<open>encoding='latin-1'\<close>: one character per
  byte, code points 0 to 255. That is the type \<^typ>\<open>char\<close>, and a \<^verbatim>\<open>str\<close> is a
  \<^typ>\<open>string\<close>. Strings compare as in Python, lexicographically by code point.
\<close>

definition nl :: char where
  "nl = CHR 0x0A"

definition isspace :: "char \<Rightarrow> bool" where
  \<comment> \<open>\<^verbatim>\<open>str.isspace\<close>, and \<^verbatim>\<open>\s\<close> in a \<^verbatim>\<open>str\<close> pattern, below code point 256\<close>
  "isspace c =
     (let n = (of_char c :: nat) in
      (9 \<le> n \<and> n \<le> 13) \<or> (28 \<le> n \<and> n \<le> 32) \<or> n = 133 \<or> n = 160)"

definition isalnum :: "char \<Rightarrow> bool" where
  \<comment> \<open>\<^verbatim>\<open>str.isalnum\<close> below code point 256\<close>
  "isalnum c =
     (let n = (of_char c :: nat) in
      (48 \<le> n \<and> n \<le> 57) \<or> (65 \<le> n \<and> n \<le> 90) \<or> (97 \<le> n \<and> n \<le> 122) \<or>
      n = 170 \<or> n = 178 \<or> n = 179 \<or> n = 181 \<or> n = 185 \<or> n = 186 \<or>
      (188 \<le> n \<and> n \<le> 190) \<or> (192 \<le> n \<and> n \<le> 214) \<or>
      (216 \<le> n \<and> n \<le> 246) \<or> (248 \<le> n \<and> n \<le> 255))"

text \<open>
  The text that \<^verbatim>\<open>synthesize_content\<close> builds can hold code points above 255, because
  \<^verbatim>\<open>str.upper\<close> maps three Latin-1 letters out of that range: 0xB5 to U+039C, 0xFF
  to U+0178, and 0xDF to the two letters \<^verbatim>\<open>SS\<close>. A character of such a text is
  \<open>Lat c\<close> for a code point below 256 and \<open>Wide n\<close> for the code point \<open>n\<close> above;
  \<open>lat\<close> embeds a Latin-1 string.
\<close>

datatype pchar = Lat char | Wide nat

type_synonym pstr = "pchar list"

definition lat :: "string \<Rightarrow> pstr" where
  "lat s = map Lat s"

definition char_upper :: "char \<Rightarrow> pstr" where
  \<comment> \<open>\<^verbatim>\<open>c.upper()\<close> for a character below code point 256\<close>
  "char_upper c =
     (let n = (of_char c :: nat) in
      if n = 181 then [Wide 924]
      else if n = 223 then [Lat (CHR ''S''), Lat (CHR ''S'')]
      else if n = 255 then [Wide 376]
      else if (97 \<le> n \<and> n \<le> 122) \<or> (224 \<le> n \<and> n \<le> 254 \<and> n \<noteq> 247)
      then [Lat (char_of (n - 32))] else [Lat c])"

definition char_lower :: "char \<Rightarrow> char" where
  \<comment> \<open>\<^verbatim>\<open>c.lower()\<close>, which stays below code point 256\<close>
  "char_lower c =
     (let n = (of_char c :: nat) in
      if (65 \<le> n \<and> n \<le> 90) \<or> (192 \<le> n \<and> n \<le> 222 \<and> n \<noteq> 215)
      then char_of (n + 32) else c)"

definition upper :: "string \<Rightarrow> pstr" where
  "upper s = concat (map char_upper s)"

definition lower :: "string \<Rightarrow> string" where
  "lower s = map char_lower s"

definition replace_char :: "'a \<Rightarrow> 'a \<Rightarrow> 'a list \<Rightarrow> 'a list" where
  \<comment> \<open>\<^verbatim>\<open>s.replace(a, b)\<close> for one-character \<^verbatim>\<open>a\<close> and \<^verbatim>\<open>b\<close>\<close>
  "replace_char a b s = map (\<lambda>c. if c = a then b else c) s"

fun join :: "string \<Rightarrow> string list \<Rightarrow> string" where
  "join sep [] = []"
| "join sep [x] = x"
| "join sep (x # y # ys) = x @ sep @ join sep (y # ys)"

definition strip :: "string \<Rightarrow> string" where
  "strip s = rev (dropWhile isspace (rev (dropWhile isspace s)))"

fun split :: "char \<Rightarrow> string \<Rightarrow> string list" where
  "split sep [] = [[]]"
| "split sep (c # cs) =
     (if c = sep then [] # split sep cs
      else (case split sep cs of [] \<Rightarrow> [[c]] | p # ps \<Rightarrow> (c # p) # ps))"

fun contains :: "string \<Rightarrow> string \<Rightarrow> bool" where
  \<comment> \<open>\<^verbatim>\<open>sub in s\<close>\<close>
  "contains sub [] = (sub = [])"
| "contains sub (c # cs) = (take (length sub) (c # cs) = sub \<or> contains sub cs)"

section \<open>The fragment of Python's re that the synthesizer uses\<close>

text \<open>
  A backtracking matcher: \<open>ms r st\<close> is the list of states in which \<open>r\<close> can end when
  started in \<open>st\<close>, in the order in which Python's engine tries them (greedy operators
  try the longest first, lazy ones the shortest). The first element is the match that
  \<^verbatim>\<open>re\<close> reports. A state holds what is left of the subject, whether the position is at
  the start of a line (start of the subject, or just after a newline: where \<^verbatim>\<open>^\<close>
  matches under \<^verbatim>\<open>re.MULTILINE\<close>), and the text of group 1.
\<close>

datatype cclass =
    Space          \<comment> \<open>\<^verbatim>\<open>\s\<close>\<close>
  | Word           \<comment> \<open>\<^verbatim>\<open>\w\<close>\<close>
  | Dot            \<comment> \<open>\<^verbatim>\<open>.\<close>: anything but a newline\<close>
  | DotAll         \<comment> \<open>\<^verbatim>\<open>.\<close> under \<^verbatim>\<open>re.DOTALL\<close>\<close>
  | NotRParen      \<comment> \<open>\<^verbatim>\<open>[^)]\<close>\<close>

fun in_class :: "cclass \<Rightarrow> char \<Rightarrow> bool" where
  "in_class Space c = isspace c"
| "in_class Word c = (isalnum c \<or> c = CHR ''_'')"
| "in_class Dot c = (c \<noteq> nl)"
| "in_class DotAll c = True"
| "in_class NotRParen c = (c \<noteq> CHR '')'')"

datatype regex =
    Lit string         \<comment> \<open>literal text\<close>
  | Cls cclass         \<comment> \<open>one character of a class\<close>
  | Seq regex regex
  | Opt regex          \<comment> \<open>\<^verbatim>\<open>r?\<close>\<close>
  | Star regex         \<comment> \<open>\<^verbatim>\<open>r*\<close>\<close>
  | LazyStar regex     \<comment> \<open>\<^verbatim>\<open>r*?\<close>\<close>
  | Grp regex          \<comment> \<open>the capturing group\<close>
  | Bol                \<comment> \<open>\<^verbatim>\<open>^\<close> under \<^verbatim>\<open>re.MULTILINE\<close>\<close>
  | Eol                \<comment> \<open>\<^verbatim>\<open>$\<close> under \<^verbatim>\<open>re.MULTILINE\<close>\<close>

record mstate =
  bol :: bool
  rest :: string
  grp :: string

fun consume :: "mstate \<Rightarrow> string \<Rightarrow> mstate" where
  "consume st [] = st"
| "consume st (c # cs) = consume (st\<lparr>bol := (c = nl), rest := tl (rest st)\<rparr>) cs"

function ms :: "regex \<Rightarrow> mstate \<Rightarrow> mstate list" where
  "ms (Lit s) st = (if take (length s) (rest st) = s then [consume st s] else [])"
| "ms (Cls k) st =
     (case rest st of
        [] \<Rightarrow> []
      | c # cs \<Rightarrow> if in_class k c then [consume st [c]] else [])"
| "ms (Seq a b) st = concat (map (ms b) (ms a st))"
| "ms (Opt a) st = ms a st @ [st]"
| "ms (Star a) st =
     concat (map (\<lambda>st'. if length (rest st') < length (rest st) then ms (Star a) st' else [])
               (ms a st)) @ [st]"
| "ms (LazyStar a) st =
     st # concat (map (\<lambda>st'. if length (rest st') < length (rest st)
                              then ms (LazyStar a) st' else [])
                    (ms a st))"
| "ms (Grp a) st =
     map (\<lambda>st'. st'\<lparr>grp := take (length (rest st) - length (rest st')) (rest st)\<rparr>) (ms a st)"
| "ms Bol st = (if bol st then [st] else [])"
| "ms Eol st = (case rest st of [] \<Rightarrow> [st] | c # cs \<Rightarrow> if c = nl then [st] else [])"
  by pat_completeness auto
termination
  by (relation "measures [\<lambda>(r, st). size r, \<lambda>(r, st). length (rest st)]") auto

definition Plus :: "regex \<Rightarrow> regex" where
  \<comment> \<open>\<^verbatim>\<open>r+\<close>: one \<open>r\<close>, then as many as possible\<close>
  "Plus r = Seq r (Star r)"

fun cat :: "regex list \<Rightarrow> regex" where
  "cat [] = Lit []"
| "cat [r] = r"
| "cat (r # rs) = Seq r (cat rs)"

definition match_at :: "regex \<Rightarrow> bool \<Rightarrow> string \<Rightarrow> mstate option" where
  "match_at r b s =
     (case ms r \<lparr>bol = b, rest = s, grp = []\<rparr> of [] \<Rightarrow> None | st # _ \<Rightarrow> Some st)"

text \<open>
  \<^verbatim>\<open>re.search(pattern, s)\<close> followed by \<^verbatim>\<open>match.group(1)\<close>: the leftmost position
  at which the pattern matches, \<open>None\<close> when there is none.
\<close>

fun search_from :: "regex \<Rightarrow> bool \<Rightarrow> string \<Rightarrow> string option" where
  "search_from r b [] = map_option grp (match_at r b [])"
| "search_from r b (c # cs) =
     (case match_at r b (c # cs) of
        Some st \<Rightarrow> Some (grp st)
      | None \<Rightarrow> search_from r (c = nl) cs)"

definition re_search :: "regex \<Rightarrow> string \<Rightarrow> string option" where
  "re_search r s = search_from r True s"

text \<open>
  \<^verbatim>\<open>re.findall(pattern, s)\<close> for a pattern with one group: the group's text for each
  match, scanning left to right and resuming where the last match ended. None of the
  patterns below can match the empty string; for completeness an empty match is
  recorded and the scan moves on by one character.
\<close>

function findall_from :: "regex \<Rightarrow> bool \<Rightarrow> string \<Rightarrow> string list" where
  "findall_from r b s =
     (case match_at r b s of
        None \<Rightarrow> (case s of [] \<Rightarrow> [] | c # cs \<Rightarrow> findall_from r (c = nl) cs)
      | Some st \<Rightarrow>
          if length (rest st) < length s then grp st # findall_from r (bol st) (rest st)
          else grp st # (case s of [] \<Rightarrow> [] | c # cs \<Rightarrow> findall_from r (c = nl) cs))"
  by pat_completeness auto
termination
  by (relation "measure (\<lambda>(r, b, s). length s)") auto

definition re_findall :: "regex \<Rightarrow> string \<Rightarrow> string list" where
  "re_findall r s = findall_from r True s"

subsection \<open>The six patterns of \<^verbatim>\<open>synthesize_content\<close>\<close>

text \<open>
  The search patterns interpolate \<^verbatim>\<open>re.escape(name)\<close>, which matches \<open>name\<close>
  literally.
\<close>

definition define_pat :: regex where
  \<comment> \<open>\<^verbatim>\<open>^#define\s+(\w+).*$\<close> with \<^verbatim>\<open>re.MULTILINE\<close>\<close>
  "define_pat =
     cat [Bol, Lit ''#define'', Plus (Cls Space), Grp (Plus (Cls Word)), Star (Cls Dot), Eol]"

definition define_search :: "string \<Rightarrow> regex" where
  \<comment> \<open>\<^verbatim>\<open>^(#define\s+NAME.*?)$\<close> with \<^verbatim>\<open>re.MULTILINE\<close>\<close>
  "define_search name =
     cat [Bol, Grp (cat [Lit ''#define'', Plus (Cls Space), Lit name, LazyStar (Cls Dot)]), Eol]"

definition typedef_pat :: regex where
  \<comment> \<open>\<^verbatim>\<open>^typedef\s+.*?\s+(\w+);\<close> with \<^verbatim>\<open>re.MULTILINE\<close>\<close>
  "typedef_pat =
     cat [Bol, Lit ''typedef'', Plus (Cls Space), LazyStar (Cls Dot), Plus (Cls Space),
          Grp (Plus (Cls Word)), Lit '';'']"

definition typedef_search :: "string \<Rightarrow> regex" where
  \<comment> \<open>\<^verbatim>\<open>(typedef\s+.*?\s+NAME;)\<close> with \<^verbatim>\<open>re.DOTALL\<close>\<close>
  "typedef_search name =
     Grp (cat [Lit ''typedef'', Plus (Cls Space), LazyStar (Cls DotAll), Plus (Cls Space),
               Lit name, Lit '';''])"

definition func_pat :: regex where
  \<comment> \<open>\<^verbatim>\<open>^(?:extern\s+)?(?:\w+\s+)+(\w+)\s*\([^)]*\);\<close> with \<^verbatim>\<open>re.MULTILINE\<close>\<close>
  "func_pat =
     cat [Bol, Opt (cat [Lit ''extern'', Plus (Cls Space)]),
          Plus (cat [Plus (Cls Word), Plus (Cls Space)]),
          Grp (Plus (Cls Word)), Star (Cls Space), Lit ''('', Star (Cls NotRParen), Lit '');'']"

definition func_search :: "string \<Rightarrow> regex" where
  \<comment> \<open>\<^verbatim>\<open>((?:extern\s+)?(?:\w+\s+)+NAME\s*\([^)]*\);)\<close>, no flags\<close>
  "func_search name =
     Grp (cat [Opt (cat [Lit ''extern'', Plus (Cls Space)]),
               Plus (cat [Plus (Cls Word), Plus (Cls Space)]),
               Lit name, Star (Cls Space), Lit ''('', Star (Cls NotRParen), Lit '');''])"

section \<open>synthesizer.py\<close>

subsection \<open>Dictionaries and sets\<close>

text \<open>
  A \<^verbatim>\<open>dict\<close> is an association list in insertion order with distinct keys. A
  \<^verbatim>\<open>set\<close> of strings is the list of its elements in insertion order, without
  repetition. Python does not iterate a set of strings in insertion order: the order
  follows the strings' hashes, which are salted anew for every interpreter process. The
  model takes that order as a parameter \<open>iter\<close>, which maps the elements of a set to
  the sequence in which this process iterates them.
\<close>

type_synonym str_set = "string list"
type_synonym sym_table = "(string \<times> str_set) list"

definition set_add :: "string \<Rightarrow> str_set \<Rightarrow> str_set" where
  "set_add x xs = (if x \<in> set xs then xs else xs @ [x])"

fun table_add :: "string \<Rightarrow> string \<Rightarrow> sym_table \<Rightarrow> sym_table" where
  \<comment> \<open>\<^verbatim>\<open>table[key].add(system)\<close> on a \<^verbatim>\<open>defaultdict(set)\<close>\<close>
  "table_add key system [] = [(key, [system])]"
| "table_add key system ((k, vs) # t) =
     (if k = key then (k, set_add system vs) # t else (k, vs) # table_add key system t)"

definition sorted_items :: "sym_table \<Rightarrow> (string \<times> str_set) list" where
  \<comment> \<open>\<^verbatim>\<open>sorted(table.items())\<close>: the keys are distinct, so the key decides\<close>
  "sorted_items t = sort_key fst t"

subsection \<open>Finding the files\<close>

text \<open>
  \<^verbatim>\<open>find_similar_files\<close> runs \<^verbatim>\<open>find <root> -name '<filename>' -type f\<close> for every
  registered system. What \<^verbatim>\<open>find\<close> prints is outside the program: \<open>run_find root
  filename\<close> is its standard output, the matching paths one per line in the order in
  which \<^verbatim>\<open>find\<close> walks the tree.
\<close>

fun find_similar_files ::
  "(string \<Rightarrow> string \<Rightarrow> string) \<Rightarrow> (string \<times> string) list \<Rightarrow> string \<Rightarrow>
   (string \<times> string list) list" where
  "find_similar_files run_find [] filename = []"
| "find_similar_files run_find ((name, path) # systems) filename =
     (let stdout = run_find path filename in
      if stdout \<noteq> [] then (name, split nl (strip stdout)) # find_similar_files run_find systems filename
      else find_similar_files run_find systems filename)"

text \<open>
  The first loop of \<^verbatim>\<open>intelligent_merge\<close>: for every system the first path of its
  list is read; a file that cannot be read (\<open>read_file\<close> gives \<open>None\<close>) is skipped.
\<close>

fun collect_contents ::
  "(string \<Rightarrow> string option) \<Rightarrow> (string \<times> string list) list \<Rightarrow> (string \<times> string) list" where
  "collect_contents read_file [] = []"
| "collect_contents read_file ((system, paths) # file_paths) =
     (case paths of
        [] \<Rightarrow> collect_contents read_file file_paths
      | p # _ \<Rightarrow>
          if p \<noteq> [] then
            (case read_file p of
               Some text \<Rightarrow> (system, text) # collect_contents read_file file_paths
             | None \<Rightarrow> collect_contents read_file file_paths)
          else collect_contents read_file file_paths)"

subsection \<open>\<^verbatim>\<open>synthesize_content\<close>\<close>

datatype error = IndexError

record tables =
  all_defines :: sym_table
  all_typedefs :: sym_table
  all_functions :: sym_table

definition add_all :: "string list \<Rightarrow> string \<Rightarrow> sym_table \<Rightarrow> sym_table" where
  \<comment> \<open>\<^verbatim>\<open>for name in names: table[name].add(system)\<close>\<close>
  "add_all names system t = fold (\<lambda>name. table_add name system) names t"

definition extract_symbols :: "string \<times> string \<Rightarrow> tables \<Rightarrow> tables" where
  \<comment> \<open>the body of the loop over \<^verbatim>\<open>contents.items()\<close> that fills the three tables\<close>
  "extract_symbols sc t =
     (case sc of (system, content) \<Rightarrow>
        \<lparr>all_defines = add_all (re_findall define_pat content) system (all_defines t),
         all_typedefs = add_all (re_findall typedef_pat content) system (all_typedefs t),
         all_functions = add_all (re_findall func_pat content) system (all_functions t)\<rparr>)"

fun first_match :: "regex \<Rightarrow> str_set \<Rightarrow> (string \<times> string) list \<Rightarrow> pstr list" where
  \<comment> \<open>the inner loop over \<^verbatim>\<open>contents.items()\<close>: what it appends before it breaks\<close>
  "first_match pattern systems [] = []"
| "first_match pattern systems ((system, content) # contents) =
     (if system \<in> set systems then
        (case re_search pattern content of
           Some g \<Rightarrow> [lat (g @ [nl])]
         | None \<Rightarrow> first_match pattern systems contents)
      else first_match pattern systems contents)"

definition emit_define ::
  "(str_set \<Rightarrow> string list) \<Rightarrow> (string \<times> string) list \<Rightarrow> string \<times> str_set \<Rightarrow>
   pstr list \<Rightarrow> pstr list" where
  "emit_define iter contents item merged_lines =
     (case item of (define, systems) \<Rightarrow>
        (if length systems > 1
         then merged_lines @
              [lat (''/* '' @ define @ '' defined in: '' @ join '', '' (iter systems) @ '' */'' @ [nl])]
         else merged_lines) @
        first_match (define_search define) systems contents)"

definition emit_typedef ::
  "(str_set \<Rightarrow> string list) \<Rightarrow> (string \<times> string) list \<Rightarrow> string \<times> str_set \<Rightarrow>
   pstr list \<Rightarrow> pstr list" where
  "emit_typedef iter contents item merged_lines =
     (case item of (typedef, systems) \<Rightarrow>
        (if length systems > 1
         then merged_lines @
              [lat (''/* '' @ typedef @ '' defined in: '' @ join '', '' (iter systems) @ '' */'' @ [nl]),
               lat ''#ifndef HAVE_'' @ upper typedef @ lat [nl],
               lat ''#define HAVE_'' @ upper typedef @ lat [nl]]
         else merged_lines) @
        first_match (typedef_search typedef) systems contents @
        (if length systems > 1 then [lat (''#endif'' @ [nl])] else []))"

definition emit_function ::
  "(str_set \<Rightarrow> string list) \<Rightarrow> (string \<times> string) list \<Rightarrow> string \<times> str_set \<Rightarrow>
   pstr list \<Rightarrow> pstr list" where
  "emit_function iter contents item merged_lines =
     (case item of (func, systems) \<Rightarrow>
        (if length systems > 1
         then merged_lines @
              [lat (''/* '' @ func @ '' available in: '' @ join '', '' (iter systems) @ '' */'' @ [nl])]
         else merged_lines) @
        first_match (func_search func) systems contents)"

definition symbols :: "(string \<times> string) list \<Rightarrow> tables" where
  \<comment> \<open>the three tables when the extraction loop has run over all of \<^verbatim>\<open>contents\<close>\<close>
  "symbols contents =
     fold extract_symbols contents \<lparr>all_defines = [], all_typedefs = [], all_functions = []\<rparr>"

definition wf_tables :: "tables \<Rightarrow> bool" where
  \<comment> \<open>the keys of each table are distinct, as the keys of a \<^verbatim>\<open>dict\<close> are\<close>
  "wf_tables t \<longleftrightarrow>
     distinct (map fst (all_defines t)) \<and> distinct (map fst (all_typedefs t)) \<and>
     distinct (map fst (all_functions t))"

definition sys_of :: "sym_table \<Rightarrow> string \<Rightarrow> str_set" where
  \<comment> \<open>the set stored under a name, empty for a name that is not a key\<close>
  "sys_of t name = (case map_of t name of None \<Rightarrow> [] | Some vs \<Rightarrow> vs)"

definition guard_of :: "string \<Rightarrow> pstr" where
  \<comment> \<open>\<^verbatim>\<open>f"_SYNTHESIZED_{filename.upper().replace('.', '_')}_"\<close>\<close>
  "guard_of filename =
     lat ''_SYNTHESIZED_'' @
     replace_char (Lat (CHR ''.'')) (Lat (CHR ''_'')) (upper filename) @ lat ''_''"

text \<open>
  \<^verbatim>\<open>synthesize_content(filename, contents)\<close>. With one entry the function returns
  that entry's text. Otherwise the default argument of \<^verbatim>\<open>contents.get\<close> evaluates
  \<^verbatim>\<open>list(contents.values())[0]\<close>, which raises on an empty dictionary; the value
  \<^verbatim>\<open>base\<close> it computes is not used afterwards. \<open>merged_lines\<close> grows as in the source,
  and the result is its concatenation.
\<close>

definition synthesize_content ::
  "(str_set \<Rightarrow> string list) \<Rightarrow> string \<Rightarrow> (string \<times> string) list \<Rightarrow> error + pstr" where
  "synthesize_content iter filename contents =
     (if length contents = 1 then Inr (lat (snd (hd contents)))
      else if contents = [] then Inl IndexError
      else
        (let merged_lines =
               [lat (''/*'' @ [nl] @ '' * '' @ filename @ '' - Synthesized from multiple OS sources'' @ [nl]),
                lat ('' * Sources: '' @ join '', '' (map fst contents) @ [nl] @ '' */'' @ [nl] @ [nl])];
             t = fold extract_symbols contents \<lparr>all_defines = [], all_typedefs = [], all_functions = []\<rparr>;
             guard = guard_of filename;
             merged_lines = merged_lines @
               [lat ''#ifndef '' @ guard @ lat [nl],
                lat ''#define '' @ guard @ lat ([nl] @ [nl])];
             merged_lines = merged_lines @
               [lat (''/* System configuration */'' @ [nl]),
                lat (''#ifdef SYNTHESIS_MACH'' @ [nl]),
                lat (''  #define USE_MACH_IPC 1'' @ [nl]),
                lat (''#endif'' @ [nl] @ [nl])];
             merged_lines = merged_lines @ [lat (''/* Definitions */'' @ [nl])];
             merged_lines = fold (emit_define iter contents) (sorted_items (all_defines t)) merged_lines;
             merged_lines = merged_lines @ [lat ([nl] @ ''/* Type definitions */'' @ [nl])];
             merged_lines = fold (emit_typedef iter contents) (sorted_items (all_typedefs t)) merged_lines;
             merged_lines = merged_lines @ [lat ([nl] @ ''/* Function declarations */'' @ [nl])];
             merged_lines = fold (emit_function iter contents) (sorted_items (all_functions t)) merged_lines;
             merged_lines = merged_lines @ [lat ([nl] @ ''#endif /* '') @ guard @ lat ('' */'' @ [nl])]
         in Inr (concat merged_lines)))"

subsection \<open>\<^verbatim>\<open>intelligent_merge\<close> and \<^verbatim>\<open>merge_headers\<close>\<close>

definition output_dir :: "string \<Rightarrow> string list" where
  \<comment> \<open>the directory under \<^verbatim>\<open>merged_path\<close>, as path components\<close>
  "output_dir filename =
     (if contains ''.h'' filename then
        (if contains ''mach'' (lower filename) then [''include'', ''mach'']
         else [''include'', ''sys''])
      else [''kernel''])"

text \<open>
  \<^verbatim>\<open>intelligent_merge\<close> returns without writing when no content could be read
  (\<open>None\<close>); otherwise it writes the synthesized text to \<open>output_dir filename\<close> under
  the file's name. The model returns what is written and where.
\<close>

definition intelligent_merge ::
  "(string \<Rightarrow> string option) \<Rightarrow> (str_set \<Rightarrow> string list) \<Rightarrow> string \<Rightarrow>
   (string \<times> string list) list \<Rightarrow> error + (string list \<times> pstr) option" where
  "intelligent_merge read_file iter filename file_paths =
     (let contents = collect_contents read_file file_paths in
      if contents = [] then Inr None
      else
        (case synthesize_content iter filename contents of
           Inl e \<Rightarrow> Inl e
         | Inr merged \<Rightarrow> Inr (Some (output_dir filename @ [filename], merged))))"

definition headers :: "string list" where
  \<comment> \<open>the key headers of \<^verbatim>\<open>merge_headers\<close>\<close>
  "headers =
     [''mach.h'', ''mach_types.h'', ''mach_interface.h'', ''task.h'', ''thread.h'',
      ''vm_map.h'', ''port.h'', ''message.h'', ''syscall.h'', ''errno.h'']"

subsection \<open>The synthesized text, described\<close>

text \<open>
  The definitions of this subsection are not translated from the source. They say in
  terms of the inputs what the loops of \<^verbatim>\<open>synthesize_content\<close> are shown to produce:
  which names a section runs through, which sources declare a name, and the entry that
  a section holds for a name.
\<close>

definition section_names :: "regex \<Rightarrow> (string \<times> string) list \<Rightarrow> string list" where
  \<comment> \<open>the names that the extraction pattern finds in some source, each once, ascending\<close>
  "section_names pat contents =
     sort (remdups (concat (map (\<lambda>sc. re_findall pat (snd sc)) contents)))"

definition declaring :: "regex \<Rightarrow> (string \<times> string) list \<Rightarrow> string \<Rightarrow> string list" where
  \<comment> \<open>the sources, in the order of \<^verbatim>\<open>contents\<close>, in which the extraction pattern finds the name\<close>
  "declaring pat contents name =
     map fst (filter (\<lambda>sc. name \<in> set (re_findall pat (snd sc))) contents)"

definition found_body :: "regex \<Rightarrow> string list \<Rightarrow> (string \<times> string) list \<Rightarrow> pstr" where
  \<comment> \<open>the line for what the lookup pattern finds in the first of the given sources where it
      finds anything; nothing when it finds nothing in any of them\<close>
  "found_body pat systems contents =
     (case List.map_filter
             (\<lambda>sc. if fst sc \<in> set systems then re_search pat (snd sc) else None) contents of
        [] \<Rightarrow> []
      | g # _ \<Rightarrow> lat (g @ [nl]))"

definition macro_entry ::
  "(str_set \<Rightarrow> string list) \<Rightarrow> (string \<times> string) list \<Rightarrow> string \<Rightarrow> pstr" where
  "macro_entry iter contents name =
     (let systems = declaring define_pat contents name in
      (if length systems > 1
       then lat (''/* '' @ name @ '' defined in: '' @ join '', '' (iter systems) @ '' */'' @ [nl])
       else []) @
      found_body (define_search name) systems contents)"

definition typedef_entry ::
  "(str_set \<Rightarrow> string list) \<Rightarrow> (string \<times> string) list \<Rightarrow> string \<Rightarrow> pstr" where
  "typedef_entry iter contents name =
     (let systems = declaring typedef_pat contents name in
      (if length systems > 1
       then lat (''/* '' @ name @ '' defined in: '' @ join '', '' (iter systems) @ '' */'' @ [nl]) @
            lat ''#ifndef HAVE_'' @ upper name @ lat [nl] @
            lat ''#define HAVE_'' @ upper name @ lat [nl]
       else []) @
      found_body (typedef_search name) systems contents @
      (if length systems > 1 then lat (''#endif'' @ [nl]) else []))"

definition function_entry ::
  "(str_set \<Rightarrow> string list) \<Rightarrow> (string \<times> string) list \<Rightarrow> string \<Rightarrow> pstr" where
  "function_entry iter contents name =
     (let systems = declaring func_pat contents name in
      (if length systems > 1
       then lat (''/* '' @ name @ '' available in: '' @ join '', '' (iter systems) @ '' */'' @ [nl])
       else []) @
      found_body (func_search name) systems contents)"

text \<open>
  The guard token as the specification derives it: the name in upper case with every
  character that is not alphanumeric replaced by an underscore. The two code points
  above 255 that \<open>upper\<close> can produce (U+039C and U+0178) are letters.
\<close>

definition spec_guard_core :: "string \<Rightarrow> pstr" where
  "spec_guard_core name =
     map (\<lambda>c. case c of
                 Lat d \<Rightarrow> if isalnum d then c else Lat (CHR ''_'')
               | Wide n \<Rightarrow> c)
         (upper name)"

section \<open>ipc\_mapper.py: the compatibility scorer\<close>

text \<open>
  \<^verbatim>\<open>self.interfaces\<close> is a dictionary from system name to a dictionary that may hold
  the key \<^verbatim>\<open>'function_signatures'\<close> (itself a dictionary from function name to a
  signature string). A dictionary is an association list in insertion order; a key
  that was never stored is \<open>None\<close>.

  The score is a Python float. It is modelled in exact real arithmetic: the rounding of
  \<^verbatim>\<open>(intersection / union) * 100\<close> is not part of the model.
\<close>

record iface =
  function_signatures :: "(string \<times> string) list option"

definition sig_keys :: "iface \<Rightarrow> string set" where
  \<comment> \<open>\<^verbatim>\<open>set(self.interfaces[sys].get('function_signatures', {}).keys())\<close>\<close>
  "sig_keys i = (case function_signatures i of None \<Rightarrow> {} | Some d \<Rightarrow> set (map fst d))"

definition calculate_compatibility_score ::
  "(string \<rightharpoonup> iface) \<Rightarrow> string \<Rightarrow> string \<Rightarrow> real" where
  "calculate_compatibility_score interfaces sys1 sys2 =
     (case interfaces sys1 of
        None \<Rightarrow> 0
      | Some i1 \<Rightarrow>
          (case interfaces sys2 of
             None \<Rightarrow> 0
           | Some i2 \<Rightarrow>
               (let sigs1 = sig_keys i1; sigs2 = sig_keys i2 in
                if sigs1 = {} \<or> sigs2 = {} then 0
                else
                  (let intersection = card (sigs1 \<inter> sigs2);
                       union = card (sigs1 \<union> sigs2)
                   in if union > 0 then (real intersection / real union) * 100 else 0))))"

text \<open>
  The function-symbol name set of a source, as the scorer sees it: the keys of its
  signature dictionary, and nothing for a source that has no entry.
\<close>

definition sigs_of :: "(string \<rightharpoonup> iface) \<Rightarrow> string \<Rightarrow> string set" where
  "sigs_of interfaces s = (case interfaces s of None \<Rightarrow> {} | Some i \<Rightarrow> sig_keys i)"

datatype severity = High | Medium

record conflict =
  systems :: "string list"
  compatibility :: real
  severity :: severity

text \<open>
  The conflict loop of \<^verbatim>\<open>generate_synthesis_plan\<close> (the part that fills
  \<^verbatim>\<open>plan['conflicts']\<close>). \<open>syss\<close> is the key list of \<^verbatim>\<open>self.systems\<close>; strings
  compare as in Python, lexicographically by code point. The source stores the score
  formatted as \<^verbatim>\<open>f'{score:.1f}%'\<close>; the model keeps the number.
\<close>

definition conflict_of :: "(string \<rightharpoonup> iface) \<Rightarrow> string \<Rightarrow> string \<Rightarrow> conflict list" where
  "conflict_of interfaces sys1 sys2 =
     (if sys1 < sys2 then
        (let score = calculate_compatibility_score interfaces sys1 sys2 in
         if score < 50 then
           [\<lparr>systems = [sys1, sys2], compatibility = score,
             severity = (if score < 25 then High else Medium)\<rparr>]
         else [])
      else [])"

definition plan_conflicts :: "string list \<Rightarrow> (string \<rightharpoonup> iface) \<Rightarrow> conflict list" where
  "plan_conflicts syss interfaces =
     concat (map (\<lambda>sys1. concat (map (\<lambda>sys2. conflict_of interfaces sys1 sys2) syss)) syss)"

definition ex_ifaces :: "string \<rightharpoonup> iface" where
  "ex_ifaces =
     [''S1'' \<mapsto> \<lparr>function_signatures = Some [(''a'', ''''), (''b'', ''''), (''c'', '''')]\<rparr>,
      ''S2'' \<mapsto> \<lparr>function_signatures = Some [(''b'', ''''), (''c'', ''''), (''d'', '''')]\<rparr>,
      ''S3'' \<mapsto> \<lparr>function_signatures = Some []\<rparr>,
      ''S4'' \<mapsto> \<lparr>function_signatures = Some [(''a'', ''''), (''x'', ''''), (''y'', '''')]\<rparr>]"


section \<open>Example inputs\<close>

definition scenario1 :: "(string \<times> string) list" where
  \<comment> \<open>two sources that both define \<^verbatim>\<open>FOO\<close>; one defines \<^verbatim>\<open>BAR\<close>, the other \<^verbatim>\<open>BAZ\<close>\<close>
  "scenario1 =
     [(''S1'', ''#define FOO 1\<newline>#define BAR 2\<newline>''),
      (''S2'', ''#define FOO 1\<newline>#define BAZ 3\<newline>'')]"

definition ex_find :: "string \<Rightarrow> string \<Rightarrow> string" where
  \<comment> \<open>a tree in which \<^verbatim>\<open>find\<close> meets directory \<^verbatim>\<open>b\<close> before directory \<^verbatim>\<open>a\<close>\<close>
  "ex_find tree filename = ''/r/b/x.h\<newline>/r/a/x.h\<newline>''"

definition ex_fs :: "string \<Rightarrow> string option" where
  "ex_fs path =
     (if path = ''/r/a/x.h'' then Some ''A''
      else if path = ''/r/b/x.h'' then Some ''B'' else None)"

section \<open>Properties of the synthesizer\<close>

subsection \<open>Symbol tables\<close>

lemma lat_append: "lat (a @ b) = lat a @ lat b"
  by (simp add: lat_def)

lemma lat_Nil: "lat [] = []"
  by (simp add: lat_def)

lemma keys_table_add: "fst ` set (table_add k s t) = insert k (fst ` set t)"
  by (induction t) (force split: if_splits)+

lemma distinct_table_add: "distinct (map fst t) \<Longrightarrow> distinct (map fst (table_add k s t))"
  by (induction t) (auto simp: keys_table_add)

lemma keys_add_all: "fst ` set (add_all names s t) = set names \<union> fst ` set t"
  unfolding add_all_def by (induction names arbitrary: t) (auto simp: keys_table_add)

lemma distinct_add_all: "distinct (map fst t) \<Longrightarrow> distinct (map fst (add_all names s t))"
  unfolding add_all_def by (induction names arbitrary: t) (auto simp: distinct_table_add)

lemma set_add_idem: "set_add s (set_add s vs) = set_add s vs"
  by (simp add: set_add_def)

lemma sys_of_table_add:
  "sys_of (table_add k s t) n = (if n = k then set_add s (sys_of t n) else sys_of t n)"
  by (induction t) (auto simp: sys_of_def set_add_def)

lemma sys_of_add_all:
  "sys_of (add_all names s t) n = (if n \<in> set names then set_add s (sys_of t n) else sys_of t n)"
  unfolding add_all_def
  by (induction names arbitrary: t) (auto simp: sys_of_table_add set_add_idem)

lemma sys_of_extract_symbols:
  "sys_of (all_defines (extract_symbols (s, c) t)) n =
     (if n \<in> set (re_findall define_pat c) then set_add s (sys_of (all_defines t) n)
      else sys_of (all_defines t) n)"
  "sys_of (all_typedefs (extract_symbols (s, c) t)) n =
     (if n \<in> set (re_findall typedef_pat c) then set_add s (sys_of (all_typedefs t) n)
      else sys_of (all_typedefs t) n)"
  "sys_of (all_functions (extract_symbols (s, c) t)) n =
     (if n \<in> set (re_findall func_pat c) then set_add s (sys_of (all_functions t) n)
      else sys_of (all_functions t) n)"
  by (simp_all add: extract_symbols_def sys_of_add_all)

lemma declaring_Cons:
  "declaring pat ((s, c) # cs) n =
     (if n \<in> set (re_findall pat c) then s # declaring pat cs n else declaring pat cs n)"
  by (simp add: declaring_def)

lemma sys_of_fold:
  assumes step: "\<And>s c t. sys_of (proj (extract_symbols (s, c) t)) n =
     (if n \<in> set (re_findall pat c) then set_add s (sys_of (proj t) n) else sys_of (proj t) n)"
  shows "distinct (map fst contents) \<Longrightarrow> set (sys_of (proj t) n) \<inter> fst ` set contents = {} \<Longrightarrow>
   sys_of (proj (fold extract_symbols contents t)) n = sys_of (proj t) n @ declaring pat contents n"
proof (induction contents arbitrary: t)
  case Nil
  then show ?case by (simp add: declaring_def)
next
  case (Cons sc contents)
  obtain s c where sc: "sc = (s, c)" by (cases sc)
  have s: "s \<notin> set (sys_of (proj t) n)" "s \<notin> fst ` set contents"
    using Cons.prems by (auto simp: sc)
  have "set (sys_of (proj (extract_symbols (s, c) t)) n) \<inter> fst ` set contents = {}"
    using Cons.prems s by (auto simp: step set_add_def sc)
  moreover have "distinct (map fst contents)" using Cons.prems by simp
  ultimately have "sys_of (proj (fold extract_symbols contents (extract_symbols (s, c) t))) n =
      sys_of (proj (extract_symbols (s, c) t)) n @ declaring pat contents n"
    by (rule Cons.IH [rotated])
  then show ?case
    using s by (simp add: sc step set_add_def declaring_Cons)
qed

lemma sys_of_symbols:
  assumes "distinct (map fst contents)"
  shows "sys_of (all_defines (symbols contents)) n = declaring define_pat contents n"
    and "sys_of (all_typedefs (symbols contents)) n = declaring typedef_pat contents n"
    and "sys_of (all_functions (symbols contents)) n = declaring func_pat contents n"
  unfolding symbols_def
  using sys_of_fold [of all_defines n define_pat contents, OF sys_of_extract_symbols(1) assms]
    sys_of_fold [of all_typedefs n typedef_pat contents, OF sys_of_extract_symbols(2) assms]
    sys_of_fold [of all_functions n func_pat contents, OF sys_of_extract_symbols(3) assms]
  by (simp_all add: sys_of_def)

lemma wf_extract_symbols: "wf_tables t \<Longrightarrow> wf_tables (extract_symbols sc t)"
  by (cases sc) (simp add: wf_tables_def extract_symbols_def distinct_add_all)

lemma wf_fold_extract: "wf_tables t \<Longrightarrow> wf_tables (fold extract_symbols contents t)"
  by (induction contents arbitrary: t) (simp_all add: wf_extract_symbols)

lemma wf_symbols: "wf_tables (symbols contents)"
  unfolding symbols_def by (rule wf_fold_extract) (simp add: wf_tables_def)

lemma keys_fold_extract:
  "fst ` set (all_defines (fold extract_symbols contents t)) =
     fst ` set (all_defines t) \<union> (\<Union>c \<in> set contents. set (re_findall define_pat (snd c)))"
  "fst ` set (all_typedefs (fold extract_symbols contents t)) =
     fst ` set (all_typedefs t) \<union> (\<Union>c \<in> set contents. set (re_findall typedef_pat (snd c)))"
  "fst ` set (all_functions (fold extract_symbols contents t)) =
     fst ` set (all_functions t) \<union> (\<Union>c \<in> set contents. set (re_findall func_pat (snd c)))"
  by (induction contents arbitrary: t; force simp: extract_symbols_def keys_add_all)+

lemma keys_symbols:
  "fst ` set (all_defines (symbols contents)) =
     (\<Union>c \<in> set contents. set (re_findall define_pat (snd c)))"
  "fst ` set (all_typedefs (symbols contents)) =
     (\<Union>c \<in> set contents. set (re_findall typedef_pat (snd c)))"
  "fst ` set (all_functions (symbols contents)) =
     (\<Union>c \<in> set contents. set (re_findall func_pat (snd c)))"
  by (simp_all add: symbols_def keys_fold_extract)

lemma item_systems:
  "distinct (map fst t) \<Longrightarrow> (n, vs) \<in> set t \<Longrightarrow> vs = sys_of t n"
  by (simp add: sys_of_def)

lemma set_section_names:
  "set (section_names pat contents) = (\<Union>c \<in> set contents. set (re_findall pat (snd c)))"
  by (auto simp: section_names_def)

lemma strict_section_names: "sorted_wrt (<) (section_names pat contents)"
  by (simp add: section_names_def strict_sorted_iff)

lemma distinct_sort_key: "distinct (map f (sort_key f xs)) = distinct (map f xs)"
  by (induction xs) (simp_all add: distinct_insort_key)

lemma keys_sorted_items:
  assumes "distinct (map fst t)"
    and "fst ` set t = (\<Union>c \<in> set contents. set (re_findall pat (snd c)))"
  shows "map fst (sorted_items t) = section_names pat contents"
proof (rule sorted_distinct_set_unique)
  show "sorted (map fst (sorted_items t))" by (simp add: sorted_items_def)
  show "distinct (map fst (sorted_items t))"
    using assms(1) by (simp add: sorted_items_def distinct_sort_key)
  show "sorted (section_names pat contents)" "distinct (section_names pat contents)"
    using strict_section_names [of pat contents] by (simp_all add: strict_sorted_iff)
  show "set (map fst (sorted_items t)) = set (section_names pat contents)"
    using assms(2) by (simp add: sorted_items_def set_section_names)
qed

lemma first_match_found:
  "concat (first_match pat vs contents) = found_body pat vs contents"
  by (induction pat vs contents rule: first_match.induct)
     (auto simp: found_body_def map_filter_simps split: option.splits)

lemma emit_define_entry:
  "concat (emit_define iter contents (n, declaring define_pat contents n) []) =
     macro_entry iter contents n"
  by (simp add: emit_define_def macro_entry_def Let_def first_match_found)

lemma emit_typedef_entry:
  "concat (emit_typedef iter contents (n, declaring typedef_pat contents n) []) =
     typedef_entry iter contents n"
  by (simp add: emit_typedef_def typedef_entry_def Let_def first_match_found)

lemma emit_function_entry:
  "concat (emit_function iter contents (n, declaring func_pat contents n) []) =
     function_entry iter contents n"
  by (simp add: emit_function_def function_entry_def Let_def first_match_found)

lemma section_entries:
  assumes "distinct (map fst t)"
    and "\<And>n. sys_of t n = declaring pat contents n"
    and "\<And>n. concat (emit (n, declaring pat contents n) []) = entry n"
  shows "concat (map (\<lambda>item. concat (emit item [])) (sorted_items t)) =
         concat (map entry (map fst (sorted_items t)))"
proof -
  have "concat (emit item []) = entry (fst item)" if "item \<in> set (sorted_items t)" for item
  proof -
    obtain n vs where item: "item = (n, vs)" by (cases item)
    then have "(n, vs) \<in> set t" using that by (simp add: sorted_items_def)
    then have "vs = declaring pat contents n"
      using item_systems [OF assms(1)] assms(2) by simp
    then show ?thesis using assms(3) item by simp
  qed
  then have "map (\<lambda>item. concat (emit item [])) (sorted_items t) =
      map (\<lambda>item. entry (fst item)) (sorted_items t)"
    by (intro map_cong refl)
  then show ?thesis by (simp only: map_map comp_def)
qed

subsection \<open>What the three emitting loops append\<close>

lemma emit_define_app:
  "emit_define iter contents item ls = ls @ emit_define iter contents item []"
  by (cases item) (simp add: emit_define_def)

lemma emit_typedef_app:
  "emit_typedef iter contents item ls = ls @ emit_typedef iter contents item []"
  by (cases item) (simp add: emit_typedef_def)

lemma emit_function_app:
  "emit_function iter contents item ls = ls @ emit_function iter contents item []"
  by (cases item) (simp add: emit_function_def)

lemma fold_emit:
  assumes "\<And>item ls. f item ls = ls @ f item []"
  shows "fold f items ls = ls @ concat (map (\<lambda>item. f item []) items)"
proof (induction items arbitrary: ls)
  case Nil
  then show ?case by simp
next
  case (Cons item items)
  have "fold f (item # items) ls = fold f items (f item ls)" by simp
  also have "\<dots> = f item ls @ concat (map (\<lambda>item. f item []) items)" by (rule Cons.IH)
  also have "f item ls = ls @ f item []" by (rule assms)
  finally show ?case by simp
qed

lemma concat_concat_map: "concat (concat (map f xs)) = concat (map (\<lambda>x. concat (f x)) xs)"
  by (induction xs) simp_all

lemma macro_section:
  assumes "distinct (map fst contents)"
  shows "concat (map (\<lambda>item. concat (emit_define iter contents item []))
                   (sorted_items (all_defines (symbols contents)))) =
         concat (map (macro_entry iter contents) (section_names define_pat contents))"
proof -
  have d: "distinct (map fst (all_defines (symbols contents)))"
    using wf_symbols [of contents] by (simp add: wf_tables_def)
  show ?thesis
    using section_entries [of "all_defines (symbols contents)" define_pat contents
        "emit_define iter contents" "macro_entry iter contents",
        OF d sys_of_symbols(1) [OF assms] emit_define_entry]
      keys_sorted_items [OF d keys_symbols(1)]
    by simp
qed

lemma typedef_section:
  assumes "distinct (map fst contents)"
  shows "concat (map (\<lambda>item. concat (emit_typedef iter contents item []))
                   (sorted_items (all_typedefs (symbols contents)))) =
         concat (map (typedef_entry iter contents) (section_names typedef_pat contents))"
proof -
  have d: "distinct (map fst (all_typedefs (symbols contents)))"
    using wf_symbols [of contents] by (simp add: wf_tables_def)
  show ?thesis
    using section_entries [of "all_typedefs (symbols contents)" typedef_pat contents
        "emit_typedef iter contents" "typedef_entry iter contents",
        OF d sys_of_symbols(2) [OF assms] emit_typedef_entry]
      keys_sorted_items [OF d keys_symbols(2)]
    by simp
qed

lemma function_section:
  assumes "distinct (map fst contents)"
  shows "concat (map (\<lambda>item. concat (emit_function iter contents item []))
                   (sorted_items (all_functions (symbols contents)))) =
         concat (map (function_entry iter contents) (section_names func_pat contents))"
proof -
  have d: "distinct (map fst (all_functions (symbols contents)))"
    using wf_symbols [of contents] by (simp add: wf_tables_def)
  show ?thesis
    using section_entries [of "all_functions (symbols contents)" func_pat contents
        "emit_function iter contents" "function_entry iter contents",
        OF d sys_of_symbols(3) [OF assms] emit_function_entry]
      keys_sorted_items [OF d keys_symbols(3)]
    by simp
qed

lemma synthesize_content_sections:
  assumes "2 \<le> length contents"
  shows "synthesize_content iter filename contents =
       Inr (lat (''/*'' @ [nl] @ '' * '' @ filename @ '' - Synthesized from multiple OS sources'' @ [nl] @
                 '' * Sources: '' @ join '', '' (map fst contents) @ [nl] @ '' */'' @ [nl] @ [nl]) @
            lat ''#ifndef '' @ guard_of filename @ lat [nl] @
            lat ''#define '' @ guard_of filename @ lat [nl, nl] @
            lat (''/* System configuration */'' @ [nl] @
                 ''#ifdef SYNTHESIS_MACH'' @ [nl] @
                 ''  #define USE_MACH_IPC 1'' @ [nl] @
                 ''#endif'' @ [nl] @ [nl]) @
            lat (''/* Definitions */'' @ [nl]) @
            concat (map (\<lambda>item. concat (emit_define iter contents item []))
                      (sorted_items (all_defines (symbols contents)))) @
            lat ([nl] @ ''/* Type definitions */'' @ [nl]) @
            concat (map (\<lambda>item. concat (emit_typedef iter contents item []))
                      (sorted_items (all_typedefs (symbols contents)))) @
            lat ([nl] @ ''/* Function declarations */'' @ [nl]) @
            concat (map (\<lambda>item. concat (emit_function iter contents item []))
                      (sorted_items (all_functions (symbols contents)))) @
            lat ([nl] @ ''#endif /* '') @ guard_of filename @ lat ('' */'' @ [nl]))"
proof -
  have ne: "length contents \<noteq> 1" "contents \<noteq> []"
    using assms by auto
  show ?thesis
    using ne
    by (simp add: synthesize_content_def Let_def symbols_def [symmetric]
        fold_emit [of "emit_define iter contents", OF emit_define_app]
        fold_emit [of "emit_typedef iter contents", OF emit_typedef_app]
        fold_emit [of "emit_function iter contents", OF emit_function_app]
        concat_concat_map lat_def del: fold_simps)
qed


subsection \<open>The layout of a synthesized artifact\<close>

text \<open>
  The claim C4 puts the opening guard before the provenance header. The source appends
  the header comment first. Two sources with empty files show the whole frame: comment,
  guard, system configuration block, three section titles, closing guard.
\<close>

theorem header_precedes_guard:
  "synthesize_content (\<lambda>xs. xs) ''a.h'' [(''mach'', ''''), (''gnu'', '''')] =
     Inr (lat (''/*\<newline> * a.h - Synthesized from multiple OS sources\<newline> * Sources: mach, gnu\<newline> */\<newline>\<newline>'' @
          ''#ifndef _SYNTHESIZED_A_H_\<newline>#define _SYNTHESIZED_A_H_\<newline>\<newline>'' @
          ''/* System configuration */\<newline>#ifdef SYNTHESIS_MACH\<newline>  #define USE_MACH_IPC 1\<newline>#endif\<newline>\<newline>'' @
          ''/* Definitions */\<newline>'' @
          ''\<newline>/* Type definitions */\<newline>'' @
          ''\<newline>/* Function declarations */\<newline>'' @
          ''\<newline>#endif /* _SYNTHESIZED_A_H_ */\<newline>''))"
  by code_simp

text \<open>
  C4 (as amended). For an artifact synthesized from two or more source contents the
  text is, in this order: the provenance header comment, which lists the contributing
  source identifiers; the opening guard; a fixed system configuration block; the macro
  section; the type alias section; the function declaration section; the closing guard.
  A section holds one entry for every name that its extraction pattern finds in some
  source, the entries in strictly ascending order of these names (by code point). The
  entry of a name is the provenance comment, when more than one source declares the
  name, and the line that the lookup pattern for the name finds in the first source
  that declares it; an entry of the type alias section with a provenance comment is
  wrapped in a \<^verbatim>\<open>HAVE_\<close> guard.
\<close>

theorem synthesized_layout:
  assumes "2 \<le> length contents" and "distinct (map fst contents)"
  shows
    "synthesize_content iter filename contents =
       Inr (lat (''/*'' @ [nl] @ '' * '' @ filename @ '' - Synthesized from multiple OS sources'' @ [nl] @
                 '' * Sources: '' @ join '', '' (map fst contents) @ [nl] @ '' */'' @ [nl] @ [nl]) @
            lat ''#ifndef '' @ guard_of filename @ lat [nl] @
            lat ''#define '' @ guard_of filename @ lat [nl, nl] @
            lat (''/* System configuration */'' @ [nl] @
                 ''#ifdef SYNTHESIS_MACH'' @ [nl] @
                 ''  #define USE_MACH_IPC 1'' @ [nl] @
                 ''#endif'' @ [nl] @ [nl]) @
            lat (''/* Definitions */'' @ [nl]) @
            concat (map (macro_entry iter contents) (section_names define_pat contents)) @
            lat ([nl] @ ''/* Type definitions */'' @ [nl]) @
            concat (map (typedef_entry iter contents) (section_names typedef_pat contents)) @
            lat ([nl] @ ''/* Function declarations */'' @ [nl]) @
            concat (map (function_entry iter contents) (section_names func_pat contents)) @
            lat ([nl] @ ''#endif /* '') @ guard_of filename @ lat ('' */'' @ [nl])) \<and>
     sorted_wrt (<) (section_names define_pat contents) \<and>
     sorted_wrt (<) (section_names typedef_pat contents) \<and>
     sorted_wrt (<) (section_names func_pat contents) \<and>
     set (section_names define_pat contents) =
       (\<Union>c \<in> set contents. set (re_findall define_pat (snd c))) \<and>
     set (section_names typedef_pat contents) =
       (\<Union>c \<in> set contents. set (re_findall typedef_pat (snd c))) \<and>
     set (section_names func_pat contents) =
       (\<Union>c \<in> set contents. set (re_findall func_pat (snd c)))"
  by (simp only: synthesize_content_sections [OF assms(1)] macro_section [OF assms(2)]
      typedef_section [OF assms(2)] function_section [OF assms(2)]
      strict_section_names set_section_names simp_thms)

lemma scenario1_sections:
  "concat (map (macro_entry (\<lambda>xs. xs) scenario1) (section_names define_pat scenario1)) =
     lat ''#define BAR 2\<newline>#define BAZ 3\<newline>/* FOO defined in: S1, S2 */\<newline>#define FOO 1\<newline>''"
  "concat (map (typedef_entry (\<lambda>xs. xs) scenario1) (section_names typedef_pat scenario1)) = []"
  "concat (map (function_entry (\<lambda>xs. xs) scenario1) (section_names func_pat scenario1)) = []"
  "guard_of ''foo.h'' = lat ''_SYNTHESIZED_FOO_H_''"
  "join '', '' (map fst scenario1) = ''S1, S2''"
  by code_simp+

theorem synthesized_layout_witness:
  "2 \<le> length scenario1 \<and> distinct (map fst scenario1) \<and>
   synthesize_content (\<lambda>xs. xs) ''foo.h'' scenario1 =
     Inr (lat (''/*\<newline> * foo.h - Synthesized from multiple OS sources\<newline> * Sources: S1, S2\<newline> */\<newline>\<newline>'' @
          ''#ifndef _SYNTHESIZED_FOO_H_\<newline>#define _SYNTHESIZED_FOO_H_\<newline>\<newline>'' @
          ''/* System configuration */\<newline>#ifdef SYNTHESIS_MACH\<newline>  #define USE_MACH_IPC 1\<newline>#endif\<newline>\<newline>'' @
          ''/* Definitions */\<newline>'' @
          ''#define BAR 2\<newline>#define BAZ 3\<newline>/* FOO defined in: S1, S2 */\<newline>#define FOO 1\<newline>'' @
          ''\<newline>/* Type definitions */\<newline>'' @
          ''\<newline>/* Function declarations */\<newline>'' @
          ''\<newline>#endif /* _SYNTHESIZED_FOO_H_ */\<newline>''))"
proof -
  have len: "2 \<le> length scenario1" and dist: "distinct (map fst scenario1)"
    by (simp_all add: scenario1_def)
  show ?thesis
    using len dist synthesized_layout [OF len dist, of "\<lambda>xs. xs" "''foo.h''", THEN conjunct1]
    by (simp add: scenario1_sections lat_def nl_def)
qed

subsection \<open>One source\<close>

lemma collect_contents_mem:
  "(system, text) \<in> set (collect_contents read_file file_paths) \<Longrightarrow>
   \<exists>paths. (system, paths) \<in> set file_paths \<and> paths \<noteq> [] \<and> read_file (hd paths) = Some text"
  by (induction read_file file_paths rule: collect_contents.induct)
     (auto split: list.splits if_splits option.splits)

text \<open>
  C10. When exactly one source contributes readable content for an artifact,
  \<^verbatim>\<open>synthesize_content\<close> returns that source's file text as it was read, and that text
  is what \<^verbatim>\<open>intelligent_merge\<close> writes: no guard, no provenance comment and no section
  is added.
\<close>

theorem single_source_unchanged:
  assumes "collect_contents read_file file_paths = [(system, text)]"
  shows "synthesize_content iter filename (collect_contents read_file file_paths) =
           Inr (lat text) \<and>
         intelligent_merge read_file iter filename file_paths =
           Inr (Some (output_dir filename @ [filename], lat text)) \<and>
         (\<exists>paths. (system, paths) \<in> set file_paths \<and> paths \<noteq> [] \<and>
                  read_file (hd paths) = Some text)"
proof -
  have "(system, text) \<in> set (collect_contents read_file file_paths)"
    using assms by simp
  from collect_contents_mem [OF this] show ?thesis
    using assms by (simp add: synthesize_content_def intelligent_merge_def)
qed

theorem single_source_unchanged_witness:
  "collect_contents ex_fs [(''mach'', [''/r/b/x.h'', ''/r/a/x.h'']), (''gnu'', [''/g/x.h''])] =
     [(''mach'', ''B'')] \<and>
   intelligent_merge ex_fs (\<lambda>xs. xs) ''x.h''
       [(''mach'', [''/r/b/x.h'', ''/r/a/x.h'']), (''gnu'', [''/g/x.h''])] =
     Inr (Some ([''include'', ''sys'', ''x.h''], lat ''B''))"
proof -
  have c: "collect_contents ex_fs [(''mach'', [''/r/b/x.h'', ''/r/a/x.h'']), (''gnu'', [''/g/x.h''])] =
     [(''mach'', ''B'')]"
    by (simp add: ex_fs_def)
  have d: "output_dir ''x.h'' = [''include'', ''sys'']"
    by code_simp
  show ?thesis
    using c single_source_unchanged [OF c, of "\<lambda>xs. xs" "''x.h''"] by (simp add: d)
qed

subsection \<open>No invariant check\<close>

text \<open>
  The claim C9 expects an error when a symbol name is about to be emitted twice. Here
  the name \<^verbatim>\<open>f\<close> is a macro and a function of the first source; it is emitted in both
  sections and the result is a text.
\<close>

theorem repeated_name_raises_nothing:
  "synthesize_content (\<lambda>xs. xs) ''a.h''
     [(''mach'', ''#define f(x) g(x)\<newline>int f(int);\<newline>''), (''gnu'', '''')] =
     Inr (lat (''/*\<newline> * a.h - Synthesized from multiple OS sources\<newline> * Sources: mach, gnu\<newline> */\<newline>\<newline>'' @
          ''#ifndef _SYNTHESIZED_A_H_\<newline>#define _SYNTHESIZED_A_H_\<newline>\<newline>'' @
          ''/* System configuration */\<newline>#ifdef SYNTHESIS_MACH\<newline>  #define USE_MACH_IPC 1\<newline>#endif\<newline>\<newline>'' @
          ''/* Definitions */\<newline>'' @
          ''#define f(x) g(x)\<newline>'' @
          ''\<newline>/* Type definitions */\<newline>'' @
          ''\<newline>/* Function declarations */\<newline>'' @
          ''int f(int);\<newline>'' @
          ''\<newline>#endif /* _SYNTHESIZED_A_H_ */\<newline>''))"
  by code_simp

text \<open>
  C9 (as amended). \<^verbatim>\<open>synthesize_content\<close> has no invariant check and raises no
  SynthesisInvariantViolation: given the contents of at least one source it returns a
  text, whatever names the sources declare and however often a name is emitted.
\<close>

theorem synthesis_returns_text:
  "contents \<noteq> [] \<Longrightarrow> \<exists>text. synthesize_content iter filename contents = Inr text"
  by (simp add: synthesize_content_def Let_def)

theorem synthesis_returns_text_witness:
  "scenario1 \<noteq> [] \<and> (\<exists>text. synthesize_content rev ''foo.h'' scenario1 = Inr text)"
  using synthesis_returns_text [of scenario1 rev "''foo.h''"]
  by (simp add: scenario1_def)

subsection \<open>Conflict resolution\<close>

text \<open>
  C1. The claim wants, for a name that several sources declare, the body of the first
  source that declares it. The lookup pattern for a macro has no boundary after the
  name, so in a source that defines \<^verbatim>\<open>FOOBAR\<close> above \<^verbatim>\<open>FOO\<close> the line found for
  \<^verbatim>\<open>FOO\<close> is the definition of \<^verbatim>\<open>FOOBAR\<close>: the artifact holds that line twice and no
  body of \<^verbatim>\<open>FOO\<close> from any source.
\<close>

theorem define_lookup_takes_longer_name:
  "synthesize_content (\<lambda>xs. xs) ''a.h''
     [(''mach'', ''#define FOOBAR 2\<newline>#define FOO 1\<newline>''),
      (''gnu'', ''#define FOO 3\<newline>'')] =
     Inr (lat (''/*\<newline> * a.h - Synthesized from multiple OS sources\<newline> * Sources: mach, gnu\<newline> */\<newline>\<newline>'' @
          ''#ifndef _SYNTHESIZED_A_H_\<newline>#define _SYNTHESIZED_A_H_\<newline>\<newline>'' @
          ''/* System configuration */\<newline>#ifdef SYNTHESIS_MACH\<newline>  #define USE_MACH_IPC 1\<newline>#endif\<newline>\<newline>'' @
          ''/* Definitions */\<newline>'' @
          ''/* FOO defined in: mach, gnu */\<newline>#define FOOBAR 2\<newline>'' @
          ''#define FOOBAR 2\<newline>'' @
          ''\<newline>/* Type definitions */\<newline>'' @
          ''\<newline>/* Function declarations */\<newline>'' @
          ''\<newline>#endif /* _SYNTHESIZED_A_H_ */\<newline>''))"
  by code_simp

text \<open>
  C3. The claim wants the definition text of a symbol that one source declares to stand
  in the artifact verbatim. The lookup pattern for a function is not anchored at the
  start of a line, so it finds \<^verbatim>\<open>use foo(x);\<close> inside the comment above the
  declaration: the artifact holds that text and not the declaration
  \<^verbatim>\<open>int foo(int x);\<close>.
\<close>

theorem function_lookup_takes_earlier_text:
  "synthesize_content (\<lambda>xs. xs) ''a.h''
     [(''mach'', ''/* use foo(x); */\<newline>int foo(int x);\<newline>''), (''gnu'', '''')] =
     Inr (lat (''/*\<newline> * a.h - Synthesized from multiple OS sources\<newline> * Sources: mach, gnu\<newline> */\<newline>\<newline>'' @
          ''#ifndef _SYNTHESIZED_A_H_\<newline>#define _SYNTHESIZED_A_H_\<newline>\<newline>'' @
          ''/* System configuration */\<newline>#ifdef SYNTHESIS_MACH\<newline>  #define USE_MACH_IPC 1\<newline>#endif\<newline>\<newline>'' @
          ''/* Definitions */\<newline>'' @
          ''\<newline>/* Type definitions */\<newline>'' @
          ''\<newline>/* Function declarations */\<newline>'' @
          ''use foo(x);\<newline>'' @
          ''\<newline>#endif /* _SYNTHESIZED_A_H_ */\<newline>''))"
  by code_simp

subsection \<open>Repeated runs\<close>

text \<open>
  C2. The claim wants the same bytes from every run on the same inputs. The per-symbol
  provenance comment joins a set of strings in its iteration order, which one process
  may take as \<^verbatim>\<open>mach, gnu\<close> and another as \<^verbatim>\<open>gnu, mach\<close>: the two texts differ.
\<close>

theorem provenance_order_follows_set_iteration:
  "synthesize_content (\<lambda>xs. xs) ''a.h''
     [(''mach'', ''#define A 1\<newline>''), (''gnu'', ''#define A 1\<newline>'')] \<noteq>
   synthesize_content rev ''a.h''
     [(''mach'', ''#define A 1\<newline>''), (''gnu'', ''#define A 1\<newline>'')]"
  by code_simp

subsection \<open>Guard tokens\<close>

lemma distinct_guards: "distinct (map guard_of headers)"
  by code_simp

lemma distinct_spec_guards: "distinct (map spec_guard_core headers)"
  by code_simp

lemma guards_as_specified:
  "list_all (\<lambda>h. guard_of h = lat ''_SYNTHESIZED_'' @ spec_guard_core h @ lat ''_'') headers"
  by code_simp

text \<open>
  C5. For the artifact names processed in a run, which are the header names of
  \<^verbatim>\<open>merge_headers\<close>: the guard token of a name is the name in upper case with every
  character that is not alphanumeric replaced by an underscore (between the fixed
  \<^verbatim>\<open>_SYNTHESIZED_\<close> and a final underscore), and two distinct names have distinct
  tokens.
\<close>

theorem guard_distinct_on_headers:
  assumes "a \<in> set headers" and "b \<in> set headers" and "a \<noteq> b"
  shows "guard_of a \<noteq> guard_of b \<and>
         guard_of a = lat ''_SYNTHESIZED_'' @ spec_guard_core a @ lat ''_'' \<and>
         spec_guard_core a \<noteq> spec_guard_core b"
proof (intro conjI)
  show "guard_of a \<noteq> guard_of b"
    using distinct_guards assms by (auto simp: distinct_map inj_on_def)
  show "guard_of a = lat ''_SYNTHESIZED_'' @ spec_guard_core a @ lat ''_''"
    using guards_as_specified assms(1) by (simp add: list_all_iff)
  show "spec_guard_core a \<noteq> spec_guard_core b"
    using distinct_spec_guards assms by (auto simp: distinct_map inj_on_def)
qed

theorem guard_distinct_on_headers_witness:
  "''mach.h'' \<in> set headers \<and> ''mach_types.h'' \<in> set headers \<and>
   guard_of ''mach.h'' \<noteq> guard_of ''mach_types.h'' \<and>
   guard_of ''mach.h'' = lat ''_SYNTHESIZED_'' @ spec_guard_core ''mach.h'' @ lat ''_''"
proof -
  have a: "''mach.h'' \<in> set headers" and b: "''mach_types.h'' \<in> set headers"
    by (simp_all add: headers_def)
  have ne: "''mach.h'' \<noteq> ''mach_types.h''"
    by simp
  from guard_distinct_on_headers [OF a b ne] show ?thesis
    using a b by blast
qed

subsection \<open>Which path is read\<close>

lemma split_no_sep: "sep \<notin> set p \<Longrightarrow> split sep p = [p]"
  by (induction p) auto

lemma split_append_sep: "sep \<notin> set p \<Longrightarrow> split sep (p @ sep # r) = p # split sep r"
  by (induction p) auto

lemma strip_back_prefix: "\<exists>k. rev (dropWhile P (rev xs)) = take k xs"
proof -
  have "dropWhile P (rev xs) = drop (length (takeWhile P (rev xs))) (rev xs)"
    by (rule dropWhile_eq_drop)
  also have "\<dots> = rev (take (length xs - length (takeWhile P (rev xs))) xs)"
    by (simp add: drop_rev)
  finally show ?thesis by auto
qed

lemma strip_first_line:
  assumes "p \<noteq> []" and "\<not> isspace (hd p)" and "\<not> isspace (last p)"
  shows "\<exists>k. strip (p @ nl # others) = p @ take k (nl # others)"
proof -
  from assms(1) obtain a r where ar: "p = a # r" by (cases p) auto
  from assms(1) obtain q b where qb: "p = q @ [b]" by (metis append_butlast_last_id)
  have b: "\<not> isspace b" using assms(3) qb by simp
  have front: "dropWhile isspace (p @ nl # others) = p @ nl # others"
    using assms(2) by (simp add: ar)
  have "dropWhile isspace ((rev others @ [nl]) @ b # rev q) =
      dropWhile isspace (rev others @ [nl]) @ b # rev q"
    using b by (rule dropWhile_append3)
  then have "dropWhile isspace (rev (p @ nl # others)) =
      dropWhile isspace (rev (nl # others)) @ b # rev q"
    by (simp add: qb)
  then have "strip (p @ nl # others) = p @ rev (dropWhile isspace (rev (nl # others)))"
    by (simp add: strip_def front) (simp add: qb)
  then show ?thesis
    using strip_back_prefix [of isspace "nl # others"] by auto
qed

lemma first_line_of_output:
  assumes "p \<noteq> []" and "\<not> isspace (hd p)" and "\<not> isspace (last p)" and "nl \<notin> set p"
  shows "\<exists>rest. split nl (strip (p @ nl # others)) = p # rest"
proof -
  from strip_first_line [OF assms(1-3)] obtain k
    where k: "strip (p @ nl # others) = p @ take k (nl # others)" by blast
  show ?thesis
  proof (cases k)
    case 0
    then show ?thesis using k assms(4) by (simp add: split_no_sep)
  next
    case (Suc j)
    then have "strip (p @ nl # others) = p @ nl # take j others" using k by simp
    then show ?thesis using assms(4) by (simp add: split_append_sep)
  qed
qed

text \<open>
  The claim C8 has the extractor take the lexicographically smallest of several matching
  paths. Here \<^verbatim>\<open>find\<close> prints \<^verbatim>\<open>/r/b/x.h\<close> before \<^verbatim>\<open>/r/a/x.h\<close>, both readable: the
  content used is that of \<^verbatim>\<open>/r/b/x.h\<close>, although \<^verbatim>\<open>/r/a/x.h\<close> is the smaller path.
\<close>

theorem smallest_path_not_selected:
  "find_similar_files ex_find [(''mach'', ''/r'')] ''x.h'' =
     [(''mach'', [''/r/b/x.h'', ''/r/a/x.h''])] \<and>
   collect_contents ex_fs (find_similar_files ex_find [(''mach'', ''/r'')] ''x.h'') =
     [(''mach'', ''B'')] \<and>
   (''/r/a/x.h'' :: string) < ''/r/b/x.h'' \<and> ex_fs ''/r/a/x.h'' = Some ''A''"
  by code_simp

text \<open>
  C8 (as amended). When a file name matches several paths in one source tree, the path
  read for that source is the first line that \<^verbatim>\<open>find\<close> prints, that is the first
  match in the order in which \<^verbatim>\<open>find\<close> walks the tree; the paths are not sorted.
  (Stated for a first path that does not begin or end with white space, which
  \<^verbatim>\<open>strip\<close> would remove.)
\<close>

theorem first_printed_path_is_read:
  assumes "run_find tree filename = concat (map (\<lambda>p. p @ [nl]) (p1 # ps))"
    and "p1 \<noteq> []" and "\<not> isspace (hd p1)" and "\<not> isspace (last p1)" and "nl \<notin> set p1"
  shows "(\<exists>rest. find_similar_files run_find [(name, tree)] filename = [(name, p1 # rest)]) \<and>
         collect_contents read_file (find_similar_files run_find [(name, tree)] filename) =
           (case read_file p1 of Some text \<Rightarrow> [(name, text)] | None \<Rightarrow> [])"
proof -
  let ?others = "concat (map (\<lambda>p. p @ [nl]) ps)"
  have out: "run_find tree filename = p1 @ nl # ?others"
    using assms(1) by simp
  from first_line_of_output [OF assms(2-5), of ?others] obtain rest
    where "split nl (strip (p1 @ nl # ?others)) = p1 # rest" by blast
  then have "find_similar_files run_find [(name, tree)] filename = [(name, p1 # rest)]"
    using assms(2) by (simp add: out Let_def)
  then show ?thesis
    using assms(2) by (auto split: option.splits)
qed

theorem first_printed_path_is_read_witness:
  "ex_find ''/r'' ''x.h'' = concat (map (\<lambda>p. p @ [nl]) [''/r/b/x.h'', ''/r/a/x.h'']) \<and>
   collect_contents ex_fs (find_similar_files ex_find [(''gnu'', ''/r'')] ''x.h'') =
     [(''gnu'', ''B'')]"
  using first_printed_path_is_read
    [of ex_find "''/r''" "''x.h''" "''/r/b/x.h''" "[''/r/a/x.h'']" "''gnu''" ex_fs]
  by (simp add: ex_find_def ex_fs_def isspace_def nl_def)

section \<open>Properties of the scorer\<close>

lemma finite_sig_keys: "finite (sig_keys i)"
  by (simp add: sig_keys_def split: option.splits)

lemma finite_sigs_of: "finite (sigs_of interfaces s)"
  by (simp add: sigs_of_def finite_sig_keys split: option.splits)

lemma score_sets:
  "calculate_compatibility_score interfaces a b =
     (if sigs_of interfaces a = {} \<or> sigs_of interfaces b = {} then 0
      else real (card (sigs_of interfaces a \<inter> sigs_of interfaces b)) /
           real (card (sigs_of interfaces a \<union> sigs_of interfaces b)) * 100)"
  by (auto simp: calculate_compatibility_score_def sigs_of_def Let_def finite_sig_keys
      split: option.splits)

lemma card_inter_eq_union:
  assumes "finite A" "finite B" "card (A \<inter> B) = card (A \<union> B)"
  shows "A = B"
proof -
  have "A \<inter> B = A \<union> B"
    using assms by (intro card_subset_eq) auto
  then show ?thesis by blast
qed

lemma score_100_iff:
  "calculate_compatibility_score interfaces a b = 100 \<longleftrightarrow>
     sigs_of interfaces a = sigs_of interfaces b \<and> sigs_of interfaces a \<noteq> {}"
proof -
  let ?A = "sigs_of interfaces a" and ?B = "sigs_of interfaces b"
  have fin: "finite ?A" "finite ?B" by (rule finite_sigs_of)+
  show ?thesis
  proof (cases "?A = {} \<or> ?B = {}")
    case True
    then show ?thesis by (auto simp: score_sets)
  next
    case False
    then have u: "card (?A \<union> ?B) > 0"
      using fin by (simp add: card_gt_0_iff)
    have "real (card (?A \<inter> ?B)) / real (card (?A \<union> ?B)) * 100 = 100 \<longleftrightarrow>
          card (?A \<inter> ?B) = card (?A \<union> ?B)"
      using u by (simp add: field_simps)
    also have "\<dots> \<longleftrightarrow> ?A = ?B"
      using card_inter_eq_union [OF fin] by auto
    finally show ?thesis using False by (simp add: score_sets)
  qed
qed

text \<open>
  C6. For any two sources, with \<open>A\<close> and \<open>B\<close> their function-symbol name sets: the score
  is \<open>|A \<inter> B| / |A \<union> B| \<times> 100\<close> (stated where the union is not empty, so that no
  division by zero is read into it); it is 0 whenever either set is empty; it is 100
  exactly when the sets are equal and not empty; and it is symmetric.
\<close>

theorem compatibility_score_jaccard:
  "(sigs_of interfaces a \<union> sigs_of interfaces b \<noteq> {} \<longrightarrow>
      calculate_compatibility_score interfaces a b =
        real (card (sigs_of interfaces a \<inter> sigs_of interfaces b)) /
        real (card (sigs_of interfaces a \<union> sigs_of interfaces b)) * 100) \<and>
   (sigs_of interfaces a = {} \<or> sigs_of interfaces b = {} \<longrightarrow>
      calculate_compatibility_score interfaces a b = 0) \<and>
   (calculate_compatibility_score interfaces a b = 100 \<longleftrightarrow>
      sigs_of interfaces a = sigs_of interfaces b \<and> sigs_of interfaces a \<noteq> {}) \<and>
   calculate_compatibility_score interfaces a b = calculate_compatibility_score interfaces b a"
proof (intro conjI impI)
  assume "sigs_of interfaces a \<union> sigs_of interfaces b \<noteq> {}"
  then show "calculate_compatibility_score interfaces a b =
        real (card (sigs_of interfaces a \<inter> sigs_of interfaces b)) /
        real (card (sigs_of interfaces a \<union> sigs_of interfaces b)) * 100"
    by (auto simp: score_sets)
next
  assume "sigs_of interfaces a = {} \<or> sigs_of interfaces b = {}"
  then show "calculate_compatibility_score interfaces a b = 0"
    by (auto simp: score_sets)
next
  show "calculate_compatibility_score interfaces a b = 100 \<longleftrightarrow>
      sigs_of interfaces a = sigs_of interfaces b \<and> sigs_of interfaces a \<noteq> {}"
    by (rule score_100_iff)
next
  show "calculate_compatibility_score interfaces a b = calculate_compatibility_score interfaces b a"
    by (simp add: score_sets Int_commute Un_commute disj_commute)
qed

lemma ex_sigs:
  "sigs_of ex_ifaces ''S1'' = {''a'', ''b'', ''c''}"
  "sigs_of ex_ifaces ''S2'' = {''b'', ''c'', ''d''}"
  "sigs_of ex_ifaces ''S3'' = {}"
  "sigs_of ex_ifaces ''S4'' = {''a'', ''x'', ''y''}"
  by (simp_all add: sigs_of_def ex_ifaces_def sig_keys_def)

lemma ex_cards:
  "card {''b'', ''c'', ''d'', ''a'', ''b'', ''c''} = 4"
  "card {''a'', ''x'', ''y'', ''a'', ''b'', ''c''} = 5"
  by (simp_all add: card_insert_if)

theorem compatibility_score_jaccard_witness:
  "sigs_of ex_ifaces ''S1'' \<union> sigs_of ex_ifaces ''S2'' \<noteq> {} \<and>
   calculate_compatibility_score ex_ifaces ''S1'' ''S2'' = 50 \<and>
   sigs_of ex_ifaces ''S3'' = {} \<and>
   calculate_compatibility_score ex_ifaces ''S1'' ''S3'' = 0 \<and>
   calculate_compatibility_score ex_ifaces ''S1'' ''S1'' = 100"
  using compatibility_score_jaccard [of ex_ifaces "''S1''" "''S2''"]
    compatibility_score_jaccard [of ex_ifaces "''S1''" "''S3''"]
    compatibility_score_jaccard [of ex_ifaces "''S1''" "''S1''"]
  by (simp add: ex_sigs ex_cards)

subsection \<open>Conflict edges\<close>

lemma score_sym:
  "calculate_compatibility_score interfaces a b = calculate_compatibility_score interfaces b a"
  by (simp add: score_sets Int_commute Un_commute disj_commute)

lemma conflict_of_iff:
  "c \<in> set (conflict_of interfaces s1 s2) \<longleftrightarrow>
     s1 < s2 \<and> calculate_compatibility_score interfaces s1 s2 < 50 \<and>
     c = \<lparr>systems = [s1, s2],
          compatibility = calculate_compatibility_score interfaces s1 s2,
          severity = (if calculate_compatibility_score interfaces s1 s2 < 25
                      then High else Medium)\<rparr>"
  by (auto simp: conflict_of_def Let_def)

lemma plan_conflicts_iff:
  "c \<in> set (plan_conflicts syss interfaces) \<longleftrightarrow>
     (\<exists>s1 \<in> set syss. \<exists>s2 \<in> set syss. c \<in> set (conflict_of interfaces s1 s2))"
  by (auto simp: plan_conflicts_def)

lemma pair_set_eq:
  "{a, b} = {c, d} \<longleftrightarrow> (a = c \<and> b = d) \<or> (a = d \<and> b = c)"
  by (auto simp: doubleton_eq_iff)

text \<open>
  C7. For two distinct registered sources, an edge for the unordered pair is in the
  plan exactly when the pair's score is strictly below 50; every such edge carries the
  pair's score, is High exactly when the score is below 25 and Medium exactly when the
  score is at least 25 (and below 50). A score of exactly 50 gives no edge.
\<close>

theorem conflict_edge_iff_below_50:
  assumes "s1 \<in> set syss" and "s2 \<in> set syss" and "s1 \<noteq> s2"
  shows "((\<exists>c \<in> set (plan_conflicts syss interfaces). set (systems c) = {s1, s2}) \<longleftrightarrow>
            calculate_compatibility_score interfaces s1 s2 < 50) \<and>
         (\<forall>c \<in> set (plan_conflicts syss interfaces). set (systems c) = {s1, s2} \<longrightarrow>
            compatibility c = calculate_compatibility_score interfaces s1 s2 \<and>
            (severity c = High \<longleftrightarrow> calculate_compatibility_score interfaces s1 s2 < 25) \<and>
            (severity c = Medium \<longleftrightarrow>
               25 \<le> calculate_compatibility_score interfaces s1 s2 \<and>
               calculate_compatibility_score interfaces s1 s2 < 50))"
proof (intro conjI ballI impI)
  show "(\<exists>c \<in> set (plan_conflicts syss interfaces). set (systems c) = {s1, s2}) \<longleftrightarrow>
            calculate_compatibility_score interfaces s1 s2 < 50"
  proof
  assume "\<exists>c \<in> set (plan_conflicts syss interfaces). set (systems c) = {s1, s2}"
  then obtain c a b where "a < b" and lt: "calculate_compatibility_score interfaces a b < 50"
    and "c = \<lparr>systems = [a, b],
          compatibility = calculate_compatibility_score interfaces a b,
          severity = (if calculate_compatibility_score interfaces a b < 25
                      then High else Medium)\<rparr>"
    and "set (systems c) = {s1, s2}"
    by (auto simp: plan_conflicts_iff conflict_of_iff)
  then have "(a = s1 \<and> b = s2) \<or> (a = s2 \<and> b = s1)"
    by (simp add: pair_set_eq)
  then show "calculate_compatibility_score interfaces s1 s2 < 50"
    using lt score_sym [of interfaces s1 s2] by auto
next
  assume lt: "calculate_compatibility_score interfaces s1 s2 < 50"
  from \<open>s1 \<noteq> s2\<close> consider "s1 < s2" | "s2 < s1" by fastforce
  then show "\<exists>c \<in> set (plan_conflicts syss interfaces). set (systems c) = {s1, s2}"
  proof cases
    case 1
    let ?c = "\<lparr>systems = [s1, s2],
          compatibility = calculate_compatibility_score interfaces s1 s2,
          severity = (if calculate_compatibility_score interfaces s1 s2 < 25
                      then High else Medium)\<rparr>"
    have "?c \<in> set (plan_conflicts syss interfaces)"
      using 1 lt assms(1,2) by (auto simp: plan_conflicts_iff conflict_of_iff)
    moreover have "set (systems ?c) = {s1, s2}" by simp
    ultimately show ?thesis by blast
  next
    case 2
    let ?c = "\<lparr>systems = [s2, s1],
          compatibility = calculate_compatibility_score interfaces s2 s1,
          severity = (if calculate_compatibility_score interfaces s2 s1 < 25
                      then High else Medium)\<rparr>"
    have "calculate_compatibility_score interfaces s2 s1 < 50"
      using lt by (simp add: score_sym [of interfaces s2 s1])
    then have "?c \<in> set (plan_conflicts syss interfaces)"
      using 2 assms(1,2) by (auto simp: plan_conflicts_iff conflict_of_iff)
    moreover have "set (systems ?c) = {s1, s2}" by auto
    ultimately show ?thesis by blast
  qed
  qed
next
  fix c
  assume "c \<in> set (plan_conflicts syss interfaces)" and pair: "set (systems c) = {s1, s2}"
  then obtain a b where lt: "calculate_compatibility_score interfaces a b < 50"
    and c: "c = \<lparr>systems = [a, b],
          compatibility = calculate_compatibility_score interfaces a b,
          severity = (if calculate_compatibility_score interfaces a b < 25
                      then High else Medium)\<rparr>"
    by (auto simp: plan_conflicts_iff conflict_of_iff)
  from c pair have "(a = s1 \<and> b = s2) \<or> (a = s2 \<and> b = s1)"
    by (simp add: pair_set_eq)
  then have eq: "calculate_compatibility_score interfaces a b =
      calculate_compatibility_score interfaces s1 s2"
    using score_sym [of interfaces s1 s2] by auto
  show "compatibility c = calculate_compatibility_score interfaces s1 s2"
    using c eq by simp
  show "severity c = High \<longleftrightarrow> calculate_compatibility_score interfaces s1 s2 < 25"
    using c eq by simp
  show "severity c = Medium \<longleftrightarrow>
      25 \<le> calculate_compatibility_score interfaces s1 s2 \<and>
      calculate_compatibility_score interfaces s1 s2 < 50"
    using c eq lt by auto
qed

lemma ex_scores:
  "calculate_compatibility_score ex_ifaces ''S1'' ''S2'' = 50"
  "calculate_compatibility_score ex_ifaces ''S1'' ''S3'' = 0"
  "calculate_compatibility_score ex_ifaces ''S1'' ''S4'' = 20"
  by (simp_all add: score_sets ex_sigs ex_cards)

theorem conflict_edge_iff_below_50_witness:
  "\<not> (\<exists>c \<in> set (plan_conflicts [''S1'', ''S2'', ''S3'', ''S4''] ex_ifaces).
        set (systems c) = {''S1'', ''S2''}) \<and>
   (\<exists>c \<in> set (plan_conflicts [''S1'', ''S2'', ''S3'', ''S4''] ex_ifaces).
        set (systems c) = {''S1'', ''S3''}) \<and>
   \<not> (\<exists>c \<in> set (plan_conflicts [''S1'', ''S2'', ''S3'', ''S4''] ex_ifaces).
        set (systems c) = {''S1'', ''S3''} \<and> \<not> (compatibility c = 0 \<and> severity c = High))"
  using conflict_edge_iff_below_50 [of "''S1''" "[''S1'', ''S2'', ''S3'', ''S4'']" "''S2''" ex_ifaces]
    conflict_edge_iff_below_50 [of "''S1''" "[''S1'', ''S2'', ''S3'', ''S4'']" "''S3''" ex_ifaces]
  by (simp add: ex_scores)

end
